theory Spec2Isabelle
  imports Complex_Main
begin

section \<open>AI CheckMate: the document ingestion and analysis pipeline of main.py\<close>

text \<open>
  The development embeds the functions of \<^verbatim>\<open>main.py\<close> that make up the pipeline:
  \<^verbatim>\<open>guess_document_type\<close>, \<^verbatim>\<open>extract_text_from_pdf\<close>, \<^verbatim>\<open>extract_text_from_docx\<close>,
  \<^verbatim>\<open>extract_text_from_image\<close>, \<^verbatim>\<open>analyze_document_text\<close> and \<^verbatim>\<open>handle_document\<close>.

  Conventions of the embedding.
  \<^item> A Python \<^verbatim>\<open>str\<close> is a list of code points. The code points are of type \<^typ>\<open>char\<close>,
    so the model covers the strings whose code points lie below 256 (ASCII and Latin-1);
    \<^const>\<open>length\<close> counts code points as Python's \<^verbatim>\<open>len\<close> does.
  \<^item> The fixed texts of the program (the replies and the system prompt) are Cyrillic;
    they are constants of the types \<open>reply\<close> and \<open>content\<close>, named by their role.
  \<^item> The libraries and services the program calls (aiogram's download, pdfplumber,
    docx2txt, PIL with pytesseract, the OpenAI client) are the fields of an environment
    record: each gives the outcome of the call, a value or a raised exception.
  \<^item> An exception is a value of type \<open>exn\<close>; only subclasses of \<^verbatim>\<open>Exception\<close> are
    modelled, which is what \<^verbatim>\<open>except Exception\<close> catches.
  \<^item> \<^verbatim>\<open>message.reply\<close> is the outbound sink: it is recorded in the trace and returns.
  \<^item> The handler returns the trace of the external calls it made, in order, and the
    exception that left it, if any.
  \<^item> The trace tells the call the program makes into the OpenAI library (line 77) from
    the requests the library's client sends to the remote service during that call:
    the client is built with its default options and resends a failed request on its
    own, within its retry budget.
\<close>

subsection \<open>Python's string operations\<close>

text \<open>\<^verbatim>\<open>str.lower\<close> on code points below 256: A-Z, and the Latin-1 capitals U+00C0-U+00DE
  without the multiplication sign U+00D7, move up by 32; every other code point stays.\<close>

definition lower_char :: "char \<Rightarrow> char" where
  "lower_char c =
     (let n = (of_char c :: nat)
      in if (65 \<le> n \<and> n \<le> 90) \<or> (192 \<le> n \<and> n \<le> 214) \<or> (216 \<le> n \<and> n \<le> 222)
         then char_of (n + 32) else c)"

definition lower :: "string \<Rightarrow> string" where
  "lower s = map lower_char s"

text \<open>\<^verbatim>\<open>str.isspace\<close> on one code point below 256: U+0009-U+000D, U+001C-U+0020,
  U+0085 and U+00A0. These are the code points \<^verbatim>\<open>str.strip()\<close> removes.\<close>

definition isspace :: "char \<Rightarrow> bool" where
  "isspace c =
     (let n = (of_char c :: nat)
      in (9 \<le> n \<and> n \<le> 13) \<or> (28 \<le> n \<and> n \<le> 32) \<or> n = 133 \<or> n = 160)"

text \<open>\<^verbatim>\<open>s.strip()\<close>: drop the leading whitespace, then the trailing whitespace.\<close>

definition strip :: "string \<Rightarrow> string" where
  "strip s = rev (dropWhile isspace (rev (dropWhile isspace s)))"

text \<open>\<^verbatim>\<open>s.split(sep)\<close> for a separator of one code point: the pieces between the
  separators, in order; there is always at least one piece.\<close>

fun split_sep :: "char \<Rightarrow> string \<Rightarrow> string list" where
  "split_sep sep [] = [[]]"
| "split_sep sep (c # cs) =
     (if c = sep then [] # split_sep sep cs
      else (case split_sep sep cs of
              [] \<Rightarrow> [[c]]
            | w # ws \<Rightarrow> (c # w) # ws))"

text \<open>\<^verbatim>\<open>sep.join(chunks)\<close>.\<close>

fun join :: "string \<Rightarrow> string list \<Rightarrow> string" where
  "join sep [] = []"
| "join sep [x] = x"
| "join sep (x # y # ys) = x @ sep @ join sep (y # ys)"

definition newline :: string where
  "newline = [CHR 0x0A]"

subsection \<open>Exceptions, replies, requests, the trace\<close>

datatype exn =
    IndexError
  | AttributeError
  | Raised string  \<comment> \<open>an exception raised inside a library or a service, by class name\<close>

text \<open>The six texts \<^verbatim>\<open>handle_document\<close> passes to \<^verbatim>\<open>message.reply\<close>: the acknowledgment
  (line 100), the four failure messages (lines 124, 128, 132, 140) and the analysis
  result (line 144).\<close>

datatype reply =
    Ack
  | UnsupportedFormat
  | ExtractionFailed
  | ContentTooSparse
  | AnalysisFailed
  | AnalysisResult string

datatype content = SystemPrompt | Text string

record chat_message =
  role :: string
  content :: content

record request =
  model :: string
  messages :: "chat_message list"
  max_tokens :: nat
  temperature :: rat

text \<open>A response of the chat-completion call: for every choice, the value of
  \<^verbatim>\<open>choice.message.content\<close>, which is \<^verbatim>\<open>None\<close> or a string.\<close>

type_synonym response = "string option list"

text \<open>What one request of the client meets at the service: a response, a failure the
  client answers by sending the request again (while its budget lasts), or a failure it
  raises at once.\<close>

datatype attempt_result =
    Answer response
  | Retryable exn
  | Fatal exn

datatype event =
    Reply reply
  | Download string string  \<comment> \<open>\<^verbatim>\<open>bot.download(file_id, destination)\<close>\<close>
  | ExtractPdf string
  | ExtractDocx string
  | ExtractImage string
  | ChatCompletion request  \<comment> \<open>the call of line 77 into the OpenAI library\<close>
  | ServiceRequest request  \<comment> \<open>one request that the client sends to the remote service\<close>

text \<open>The inbound message: a document with its file id and its file name (which
  Telegram may leave out), or a photo with the file ids of its sizes, smallest first.\<close>

datatype message =
    DocumentMsg string "string option"
  | PhotoMsg "string list"

text \<open>What the collaborators do during one invocation. A path stands for the file of
  that name in the invocation's temporary directory.\<close>

record env =
  download :: "string \<Rightarrow> string \<Rightarrow> exn option"
    \<comment> \<open>\<^verbatim>\<open>bot.download\<close>: \<open>None\<close> when it returns, the exception when it raises\<close>
  pdf_open :: "string \<Rightarrow> exn + (exn + string option) list"
    \<comment> \<open>\<^verbatim>\<open>pdfplumber.open(path).pages\<close>, each page by what its \<^verbatim>\<open>extract_text()\<close> does\<close>
  docx2txt_process :: "string \<Rightarrow> exn + string"
  image_to_string :: "string \<Rightarrow> exn + string"
    \<comment> \<open>\<^verbatim>\<open>Image.open\<close> followed by \<^verbatim>\<open>pytesseract.image_to_string\<close>\<close>
  client_new :: "exn option"
    \<comment> \<open>\<^verbatim>\<open>openai.AsyncOpenAI()\<close>: \<open>None\<close> when the client is built, the exception when it raises\<close>
  client_retries :: nat
    \<comment> \<open>the retry budget of the client: line 77 passes no option, so the library's default\<close>
  attempt :: "request \<Rightarrow> nat \<Rightarrow> attempt_result"
    \<comment> \<open>what the request meets at the service when it is sent for the \<open>k\<close>-th time, from 0\<close>

subsection \<open>Configuration\<close>

definition MODEL :: string where
  "MODEL = ''gpt-4o-mini''"

definition MAX_TOKENS_RESPONSE :: nat where
  "MAX_TOKENS_RESPONSE = 1200"

subsection \<open>Utils\<close>

text \<open>\<^verbatim>\<open>page.extract_text() or ""\<close>: \<^verbatim>\<open>None\<close> and the empty string both give the empty
  string.\<close>

definition or_empty :: "string option \<Rightarrow> string" where
  "or_empty t = (case t of None \<Rightarrow> [] | Some s \<Rightarrow> (if s = [] then [] else s))"

text \<open>The loop of \<^verbatim>\<open>extract_text_from_pdf\<close> over \<^verbatim>\<open>pdf.pages\<close>, appending to
  \<^verbatim>\<open>text_chunks\<close>; a page whose extraction raises ends the loop with the exception.\<close>

fun pages_loop :: "(exn + string option) list \<Rightarrow> string list \<Rightarrow> exn + string list" where
  "pages_loop [] text_chunks = Inr text_chunks"
| "pages_loop (page # pages) text_chunks =
     (case page of
        Inl e \<Rightarrow> Inl e
      | Inr t \<Rightarrow> pages_loop pages (text_chunks @ [or_empty t]))"

definition extract_text_from_pdf :: "env \<Rightarrow> string \<Rightarrow> exn + string" where
  "extract_text_from_pdf E path =
     (case pdf_open E path of
        Inl e \<Rightarrow> Inl e
      | Inr pages \<Rightarrow>
          (case pages_loop pages [] of
             Inl e \<Rightarrow> Inl e
           | Inr text_chunks \<Rightarrow> Inr (join newline text_chunks)))"

definition extract_text_from_image :: "env \<Rightarrow> string \<Rightarrow> exn + string" where
  "extract_text_from_image E path = image_to_string E path"

definition extract_text_from_docx :: "env \<Rightarrow> string \<Rightarrow> exn + string" where
  "extract_text_from_docx E path = docx2txt_process E path"

text \<open>\<^verbatim>\<open>filename.lower().split(".")[-1]\<close>. The list \<^verbatim>\<open>split\<close> returns is never empty
  (lemma \<open>split_sep_nonempty\<close>), so the index \<^verbatim>\<open>-1\<close> is its last element.\<close>

definition guess_document_type :: "string \<Rightarrow> string" where
  "guess_document_type filename = last (split_sep (CHR ''.'') (lower filename))"

text \<open>\<^verbatim>\<open>text[:60_000]\<close>, the argument of the user message (line 81).\<close>

definition clip :: "string \<Rightarrow> string" where
  "clip text = take 60000 text"

text \<open>The request \<^verbatim>\<open>analyze_document_text\<close> builds (lines 77-85).\<close>

definition analysis_request :: "string \<Rightarrow> request" where
  "analysis_request text =
     \<lparr> model = MODEL,
       messages = [\<lparr> role = ''system'', content = SystemPrompt \<rparr>,
                   \<lparr> role = ''user'', content = Text (clip text) \<rparr>],
       max_tokens = MAX_TOKENS_RESPONSE,
       temperature = 3 / 10 \<rparr>"

text \<open>The client during one call of \<^verbatim>\<open>create\<close>: it sends the request; a response or a
  failure it does not retry ends the call; after a failure it retries it sends the
  request again while retries are left, and raises the failure when none is left. The
  result is the number of requests sent and the outcome of the call.\<close>

primrec send_requests ::
    "(nat \<Rightarrow> attempt_result) \<Rightarrow> nat \<Rightarrow> nat \<Rightarrow> nat \<times> (exn + response)" where
  "send_requests att 0 k =
     (case att k of
        Answer r \<Rightarrow> (1, Inr r)
      | Retryable e \<Rightarrow> (1, Inl e)
      | Fatal e \<Rightarrow> (1, Inl e))"
| "send_requests att (Suc retries_left) k =
     (case att k of
        Answer r \<Rightarrow> (1, Inr r)
      | Retryable e \<Rightarrow>
          (case send_requests att retries_left (Suc k) of
             (n, outcome) \<Rightarrow> (Suc n, outcome))
      | Fatal e \<Rightarrow> (1, Inl e))"

text \<open>\<^verbatim>\<open>openai.AsyncOpenAI().chat.completions.create(...)\<close>: when building the client
  raises, nothing is sent.\<close>

definition client_call :: "env \<Rightarrow> request \<Rightarrow> nat \<times> (exn + response)" where
  "client_call E q =
     (case client_new E of
        Some e \<Rightarrow> (0, Inl e)
      | None \<Rightarrow> send_requests (attempt E q) (client_retries E) 0)"

definition requests_sent :: "env \<Rightarrow> request \<Rightarrow> nat" where
  "requests_sent E q = fst (client_call E q)"

definition chat_create :: "env \<Rightarrow> request \<Rightarrow> exn + response" where
  "chat_create E q = snd (client_call E q)"

text \<open>\<^verbatim>\<open>analyze_document_text\<close>: one call into the library, during which the client
  sends its requests; then \<^verbatim>\<open>response.choices[0].message.content.strip()\<close>, where an
  empty list of choices raises IndexError and a content of \<^verbatim>\<open>None\<close> raises
  AttributeError.\<close>

definition analyze_document_text :: "env \<Rightarrow> string \<Rightarrow> event list \<times> (exn + string)" where
  "analyze_document_text E text =
     (ChatCompletion (analysis_request text) #
        replicate (requests_sent E (analysis_request text)) (ServiceRequest (analysis_request text)),
      (case chat_create E (analysis_request text) of
         Inl e \<Rightarrow> Inl e
       | Inr choices \<Rightarrow>
           (case choices of
              [] \<Rightarrow> Inl IndexError
            | c # _ \<Rightarrow>
                (case c of
                   None \<Rightarrow> Inl AttributeError
                 | Some s \<Rightarrow> Inr (strip s)))))"

subsection \<open>The handler\<close>

text \<open>Lines 104-109: the file id and the file name of the message.
  \<^verbatim>\<open>file_name or "document"\<close> replaces \<^verbatim>\<open>None\<close> and the empty name;
  \<^verbatim>\<open>message.photo[-1]\<close> raises IndexError on an empty list.\<close>

definition select_file :: "message \<Rightarrow> exn + string \<times> string" where
  "select_file m =
     (case m of
        DocumentMsg file_id file_name \<Rightarrow>
          Inr (file_id,
               (case file_name of
                  None \<Rightarrow> ''document''
                | Some n \<Rightarrow> (if n = [] then ''document'' else n)))
      | PhotoMsg sizes \<Rightarrow>
          (if sizes = [] then Inl IndexError
           else Inr (last sizes, ''photo_'' @ last sizes @ ''.jpg'')))"

text \<open>The branch of lines 117-125 that a document type takes.\<close>

datatype doc_kind = Pdf | Docx | Image | Unsupported

definition kind_of :: "string \<Rightarrow> doc_kind" where
  "kind_of doc_type =
     (if doc_type = ''pdf'' then Pdf
      else if doc_type = ''doc'' \<or> doc_type = ''docx'' then Docx
      else if doc_type = ''jpg'' \<or> doc_type = ''jpeg'' \<or> doc_type = ''png''
              \<or> doc_type = ''heic'' \<or> doc_type = ''webp'' then Image
      else Unsupported)"

text \<open>The body of the \<^verbatim>\<open>try\<close> of lines 116-125: the extractor of the branch runs, or the
  last branch replies and returns (\<open>Inr None\<close>).\<close>

definition extract_stage :: "env \<Rightarrow> string \<Rightarrow> string \<Rightarrow> event list \<times> (exn + string option)" where
  "extract_stage E doc_type file_path =
     (case kind_of doc_type of
        Pdf \<Rightarrow> ([ExtractPdf file_path], map_sum id Some (extract_text_from_pdf E file_path))
      | Docx \<Rightarrow> ([ExtractDocx file_path], map_sum id Some (extract_text_from_docx E file_path))
      | Image \<Rightarrow> ([ExtractImage file_path], map_sum id Some (extract_text_from_image E file_path))
      | Unsupported \<Rightarrow> ([Reply UnsupportedFormat], Inr None))"

text \<open>The test of line 131.\<close>

datatype validation = Valid | InsufficientContent

definition validate :: "string \<Rightarrow> validation" where
  "validate text = (if length (strip text) < 200 then InsufficientContent else Valid)"

text \<open>Lines 131-144, from the extracted text on.\<close>

definition analysis_stage :: "env \<Rightarrow> string \<Rightarrow> event list" where
  "analysis_stage E text =
     (case validate text of
        InsufficientContent \<Rightarrow> [Reply ContentTooSparse]
      | Valid \<Rightarrow>
          (case analyze_document_text E text of
             (evs, Inl e) \<Rightarrow> evs @ [Reply AnalysisFailed]
           | (evs, Inr analysis_result) \<Rightarrow> evs @ [Reply (AnalysisResult analysis_result)]))"

text \<open>\<^verbatim>\<open>handle_document\<close>. The download of line 112 is outside every \<^verbatim>\<open>try\<close>: its
  exception leaves the handler, as does the IndexError of line 108.\<close>

definition handle_document :: "env \<Rightarrow> message \<Rightarrow> event list \<times> exn option" where
  "handle_document E m =
     (case select_file m of
        Inl e \<Rightarrow> ([Reply Ack], Some e)
      | Inr (file_id, filename) \<Rightarrow>
          (case download E file_id filename of
             Some e \<Rightarrow> ([Reply Ack, Download file_id filename], Some e)
           | None \<Rightarrow>
               (case extract_stage E (guess_document_type filename) filename of
                  (evs, Inl e) \<Rightarrow>
                    ([Reply Ack, Download file_id filename] @ evs @ [Reply ExtractionFailed], None)
                | (evs, Inr None) \<Rightarrow>
                    ([Reply Ack, Download file_id filename] @ evs, None)
                | (evs, Inr (Some text)) \<Rightarrow>
                    ([Reply Ack, Download file_id filename] @ evs @ analysis_stage E text, None))))"

subsection \<open>Reading a trace\<close>

fun replies :: "event list \<Rightarrow> reply list" where
  "replies [] = []"
| "replies (Reply r # evs) = r # replies evs"
| "replies (_ # evs) = replies evs"

fun is_extraction :: "event \<Rightarrow> bool" where
  "is_extraction (ExtractPdf _) = True"
| "is_extraction (ExtractDocx _) = True"
| "is_extraction (ExtractImage _) = True"
| "is_extraction _ = False"

definition extractions :: "event list \<Rightarrow> event list" where
  "extractions evs = filter is_extraction evs"

fun completions :: "event list \<Rightarrow> request list" where
  "completions [] = []"
| "completions (ChatCompletion q # evs) = q # completions evs"
| "completions (_ # evs) = completions evs"

fun service_requests :: "event list \<Rightarrow> request list" where
  "service_requests [] = []"
| "service_requests (ServiceRequest q # evs) = q # service_requests evs"
| "service_requests (_ # evs) = service_requests evs"

subsection \<open>The classifier as the specification words it\<close>

text \<open>The text after the last \<open>.\<close> of a file name, or nothing when the name has no \<open>.\<close>.\<close>

definition extension :: "string \<Rightarrow> string option" where
  "extension filename =
     (if CHR ''.'' \<in> set filename
      then Some (rev (takeWhile (\<lambda>c. c \<noteq> CHR ''.'') (rev filename)))
      else None)"

text \<open>The classification of section 4.1 of the specification: the lowercased extension
  decides; a name without extension is unsupported.\<close>

definition classify_spec :: "string \<Rightarrow> doc_kind" where
  "classify_spec filename =
     (case extension filename of
        None \<Rightarrow> Unsupported
      | Some e \<Rightarrow> kind_of (lower e))"

text \<open>The classification the program computes.\<close>

definition classify :: "string \<Rightarrow> doc_kind" where
  "classify filename = kind_of (guess_document_type filename)"

subsection \<open>An environment for concrete runs\<close>

definition demo_env :: env where
  "demo_env =
     \<lparr> download = (\<lambda>file_id dest. None),
       pdf_open = (\<lambda>path. Inr [Inr (Some (replicate 150 (CHR ''a''))), Inr None,
                                 Inr (Some (replicate 150 (CHR ''b'')))]),
       docx2txt_process = (\<lambda>path. Inr (replicate 50 (CHR ''x''))),
       image_to_string = (\<lambda>path. Inr (replicate 250 (CHR ''y''))),
       client_new = None,
       client_retries = 2,
       attempt = (\<lambda>q k. Answer [Some '' risk report '']) \<rparr>"

text \<open>The service times out on every request; the client has its two retries.\<close>

definition failing_llm_env :: env where
  "failing_llm_env = demo_env \<lparr> attempt := (\<lambda>q k. Retryable (Raised ''APITimeoutError'')) \<rparr>"

text \<open>The service refuses the key: a failure the client does not retry.\<close>

definition rejecting_llm_env :: env where
  "rejecting_llm_env = demo_env \<lparr> attempt := (\<lambda>q k. Fatal (Raised ''AuthenticationError'')) \<rparr>"

section \<open>Properties\<close>

subsection \<open>Strings\<close>

lemma split_sep_nonempty: "split_sep sep s \<noteq> []"
  by (induction s) (auto split: list.splits)

lemma split_sep_no_sep: "sep \<notin> set s \<Longrightarrow> split_sep sep s = [s]"
  by (induction s) auto

lemma split_sep_length: "sep \<in> set s \<Longrightarrow> 2 \<le> length (split_sep sep s)"
  by (induction s) (auto simp: split_sep_nonempty split_sep_no_sep split: list.splits)

lemma takeWhile_snoc_sep: "takeWhile (\<lambda>c. c \<noteq> sep) (xs @ [sep]) = takeWhile (\<lambda>c. c \<noteq> sep) xs"
  by (induction xs) auto

lemma last_split_sep: "last (split_sep sep s) = rev (takeWhile (\<lambda>c. c \<noteq> sep) (rev s))"
proof (induction s)
  case Nil
  then show ?case by simp
next
  case (Cons x xs)
  show ?case
  proof (cases "x = sep")
    case True
    then show ?thesis
      using Cons by (simp add: split_sep_nonempty takeWhile_snoc_sep)
  next
    case False
    obtain w ws where sp: "split_sep sep xs = w # ws"
      using split_sep_nonempty [of sep xs] by (cases "split_sep sep xs") auto
    show ?thesis
    proof (cases "sep \<in> set xs")
      case True
      then have "ws \<noteq> []"
        using split_sep_length [of sep xs] sp by auto
      moreover have "takeWhile (\<lambda>c. c \<noteq> sep) (rev xs @ [x]) = takeWhile (\<lambda>c. c \<noteq> sep) (rev xs)"
        using True by simp
      ultimately show ?thesis
        using Cons False sp by simp
    next
      case notin: False
      have all: "\<forall>c\<in>set (rev xs @ [x]). c \<noteq> sep"
        using notin False by auto
      have "takeWhile (\<lambda>c. c \<noteq> sep) (rev xs @ [x]) = rev xs @ [x]"
        using all by (simp only: takeWhile_eq_all_conv)
      then have "rev (takeWhile (\<lambda>c. c \<noteq> sep) (rev (x # xs))) = x # xs"
        by simp
      moreover have "last (split_sep sep (x # xs)) = x # xs"
        using False split_sep_no_sep [OF notin] by simp
      ultimately show ?thesis by (simp only:)
    qed
  qed
qed

lemma join_split_sep: "join [sep] (split_sep sep s) = s"
proof (induction s)
  case Nil
  then show ?case by simp
next
  case (Cons x xs)
  obtain w ws where sp: "split_sep sep xs = w # ws"
    using split_sep_nonempty [of sep xs] by (cases "split_sep sep xs") auto
  show ?case using Cons sp by (cases ws) auto
qed

lemma lower_char_dot: "lower_char c = CHR ''.'' \<longleftrightarrow> c = CHR ''.''"
  by (simp only: of_char_eq_iff [where ?'a = nat, symmetric]) (auto simp: lower_char_def Let_def)

lemma dot_in_lower: "CHR ''.'' \<in> set (lower s) \<longleftrightarrow> CHR ''.'' \<in> set s"
proof -
  have "CHR ''.'' \<in> lower_char ` set s \<longleftrightarrow> CHR ''.'' \<in> set s"
    using lower_char_dot by (metis imageE image_eqI)
  then show ?thesis by (simp add: lower_def)
qed

lemma lower_after_last_dot:
  "rev (takeWhile (\<lambda>c. c \<noteq> CHR ''.'') (rev (lower s))) =
   lower (rev (takeWhile (\<lambda>c. c \<noteq> CHR ''.'') (rev s)))"
  by (simp add: lower_def rev_map takeWhile_map comp_def lower_char_dot)

lemma guess_document_type_eq:
  "guess_document_type filename =
     lower (case extension filename of None \<Rightarrow> filename | Some e \<Rightarrow> e)"
proof (cases "CHR ''.'' \<in> set filename")
  case True
  then show ?thesis
    by (simp add: guess_document_type_def extension_def last_split_sep lower_after_last_dot)
next
  case False
  then show ?thesis
    by (simp add: guess_document_type_def extension_def split_sep_no_sep dot_in_lower)
qed

lemma dropWhile_hd: "xs \<noteq> [] \<Longrightarrow> \<not> P (hd xs) \<Longrightarrow> dropWhile P xs = xs"
  by (cases xs) auto

lemma dropWhile_all_append: "\<forall>x\<in>set xs. P x \<Longrightarrow> dropWhile P (xs @ ys) = dropWhile P ys"
  by (induction xs) auto

lemma strip_unique:
  assumes pre: "\<forall>c\<in>set pre. isspace c"
    and post: "\<forall>c\<in>set post. isspace c"
    and core: "core = [] \<or> (\<not> isspace (hd core) \<and> \<not> isspace (last core))"
  shows "strip (pre @ core @ post) = core"
proof (cases "core = []")
  case True
  have "\<forall>c\<in>set (pre @ post). isspace c"
    using pre post by auto
  then have "dropWhile isspace (pre @ post) = []"
    by (simp only: dropWhile_eq_Nil_conv)
  then have "strip (pre @ post) = []"
    by (simp only: strip_def rev.simps dropWhile.simps)
  then show ?thesis using True by simp
next
  case False
  have hdc: "\<not> isspace (hd core)" and lastc: "\<not> isspace (last core)"
    using core False by simp_all
  have "dropWhile isspace (pre @ core @ post) = dropWhile isspace (core @ post)"
    using pre by (rule dropWhile_all_append)
  also have "\<dots> = core @ post"
    using False hdc by (intro dropWhile_hd) simp_all
  finally have front: "dropWhile isspace (pre @ core @ post) = core @ post" .
  have "dropWhile isspace (rev post @ rev core) = dropWhile isspace (rev core)"
    using post by (intro dropWhile_all_append) simp
  also have "\<dots> = rev core"
    using False lastc by (intro dropWhile_hd) (simp_all add: hd_rev)
  finally have rear: "dropWhile isspace (rev (core @ post)) = rev core"
    by simp
  show ?thesis
    by (simp only: strip_def front rear rev_rev_ident)
qed

lemma strip_decompose:
  "\<exists>pre post. s = pre @ strip s @ post \<and> (\<forall>c\<in>set pre. isspace c) \<and> (\<forall>c\<in>set post. isspace c)"
proof -
  let ?b = "dropWhile isspace s"
  have 1: "s = takeWhile isspace s @ ?b" by simp
  have 2: "?b = strip s @ rev (takeWhile isspace (rev ?b))"
    unfolding strip_def by (metis rev_append rev_rev_ident takeWhile_dropWhile_id)
  have 3: "\<forall>c\<in>set (takeWhile isspace s). isspace c"
    by (auto dest: set_takeWhileD)
  have 4: "\<forall>c\<in>set (rev (takeWhile isspace (rev ?b))). isspace c"
    by (auto dest: set_takeWhileD)
  from 1 2 have "s = takeWhile isspace s @ strip s @ rev (takeWhile isspace (rev ?b))"
    by metis
  with 3 4 show ?thesis by blast
qed

subsection \<open>Classification of file names\<close>

lemma kind_of_cases:
  "(kind_of e = Pdf \<longleftrightarrow> e = ''pdf'') \<and>
   (kind_of e = Docx \<longleftrightarrow> e = ''doc'' \<or> e = ''docx'') \<and>
   (kind_of e = Image \<longleftrightarrow> e = ''jpg'' \<or> e = ''jpeg'' \<or> e = ''png'' \<or> e = ''heic'' \<or> e = ''webp'') \<and>
   (kind_of e = Unsupported \<longleftrightarrow>
      e \<notin> {''pdf'', ''doc'', ''docx'', ''jpg'', ''jpeg'', ''png'', ''heic'', ''webp''})"
  by (simp add: kind_of_def)

text \<open>
  Claim C1, as the program has it. For every file name the classification is decided by
  the lowercased text after the last \<open>.\<close>, and by the whole lowercased name when the name
  has no \<open>.\<close>: \<open>pdf\<close> gives pdf; \<open>doc\<close> and \<open>docx\<close> give docx; \<open>jpg\<close>, \<open>jpeg\<close>,
  \<open>png\<close>, \<open>heic\<close> and \<open>webp\<close> give image; everything else, the empty name included,
  is unsupported. With a \<open>.\<close> in the name this is the classification of the
  specification; a name without \<open>.\<close> is unsupported exactly when its lowercased whole
  is none of the eight names.
\<close>

theorem classify_by_last_piece:
  "classify filename =
     kind_of (lower (case extension filename of None \<Rightarrow> filename | Some e \<Rightarrow> e)) \<and>
   (extension filename \<noteq> None \<longrightarrow> classify filename = classify_spec filename) \<and>
   (extension filename = None \<longrightarrow>
      (classify filename = Unsupported \<longleftrightarrow>
         lower filename \<notin> {''pdf'', ''doc'', ''docx'', ''jpg'', ''jpeg'', ''png'', ''heic'', ''webp''})) \<and>
   classify [] = Unsupported \<and>
   (kind_of e = Pdf \<longleftrightarrow> e = ''pdf'') \<and>
   (kind_of e = Docx \<longleftrightarrow> e = ''doc'' \<or> e = ''docx'') \<and>
   (kind_of e = Image \<longleftrightarrow> e = ''jpg'' \<or> e = ''jpeg'' \<or> e = ''png'' \<or> e = ''heic'' \<or> e = ''webp'') \<and>
   (kind_of e = Unsupported \<longleftrightarrow>
      e \<notin> {''pdf'', ''doc'', ''docx'', ''jpg'', ''jpeg'', ''png'', ''heic'', ''webp''})"
proof -
  have 1: "classify filename =
     kind_of (lower (case extension filename of None \<Rightarrow> filename | Some e \<Rightarrow> e))"
    by (simp add: classify_def guess_document_type_eq)
  have 2: "extension filename \<noteq> None \<longrightarrow> classify filename = classify_spec filename"
    by (auto simp: 1 classify_spec_def)
  have 3: "extension filename = None \<longrightarrow>
      (classify filename = Unsupported \<longleftrightarrow>
         lower filename \<notin> {''pdf'', ''doc'', ''docx'', ''jpg'', ''jpeg'', ''png'', ''heic'', ''webp''})"
    using kind_of_cases [of "lower filename"] by (simp add: 1)
  have 4: "classify [] = Unsupported"
    by (simp add: classify_def guess_document_type_def lower_def kind_of_def)
  show ?thesis
    using 1 2 3 4 kind_of_cases [of e] by (simp only: simp_thms)
qed

theorem classify_by_last_piece_witness:
  "classify ''Contract.PDF'' = Pdf \<and> classify ''scan.v2.JPeG'' = Image \<and>
   classify ''contract.xlsx'' = Unsupported \<and> classify ''document'' = Unsupported"
proof -
  have a: "extension ''Contract.PDF'' = Some ''PDF''" by (simp add: extension_def)
  have b: "extension ''scan.v2.JPeG'' = Some ''JPeG''" by (simp add: extension_def)
  have c: "extension ''contract.xlsx'' = Some ''xlsx''" by (simp add: extension_def)
  have d: "extension ''document'' = None" by (simp add: extension_def)
  show ?thesis
    using classify_by_last_piece [of "''Contract.PDF''"] classify_by_last_piece [of "''scan.v2.JPeG''"]
      classify_by_last_piece [of "''contract.xlsx''"] classify_by_last_piece [of "''document''"]
    by (simp add: a b c d lower_def lower_char_def kind_of_def char_of_eq_iff)
qed

text \<open>As the claim words it, a name without extension is always unsupported. The name
  \<open>pdf\<close> has no \<open>.\<close>, and the program takes the pdf branch for it.\<close>

theorem classify_no_extension_counterexample:
  "extension ''pdf'' = None \<and> classify_spec ''pdf'' = Unsupported \<and> classify ''pdf'' = Pdf"
  by (simp add: extension_def classify_spec_def classify_def guess_document_type_def
      lower_def lower_char_def kind_of_def)

subsection \<open>Content validation\<close>

text \<open>
  Claim C3. For every extracted text: when the text without its leading and trailing
  whitespace has fewer than 200 characters the validation gives InsufficientContent;
  when it has 200 or more it gives Valid; with exactly 200 it gives Valid. The stripped
  text is spelled out in the last part: if the text is some whitespace, a core that
  neither begins nor ends with whitespace, and some whitespace, then the core is the
  stripped text and its length decides.
\<close>

theorem validate_threshold:
  "(length (strip text) < 200 \<longrightarrow> validate text = InsufficientContent) \<and>
   (200 \<le> length (strip text) \<longrightarrow> validate text = Valid) \<and>
   (length (strip text) = 200 \<longrightarrow> validate text = Valid) \<and>
   (text = pre @ core @ post \<and> (\<forall>c\<in>set pre. isspace c) \<and> (\<forall>c\<in>set post. isspace c) \<and>
    (core = [] \<or> (\<not> isspace (hd core) \<and> \<not> isspace (last core)))
      \<longrightarrow> strip text = core \<and>
          validate text = (if length core < 200 then InsufficientContent else Valid))"
  using strip_unique [of pre post core] by (auto simp: validate_def)

theorem validate_threshold_witness:
  "validate (''  '' @ replicate 200 (CHR ''a'') @ newline) = Valid \<and>
   validate (''  '' @ replicate 199 (CHR ''a'') @ newline) = InsufficientContent"
  using validate_threshold [of "''  '' @ replicate 200 (CHR ''a'') @ newline" "''  ''"
      "replicate 200 (CHR ''a'')" newline]
    validate_threshold [of "''  '' @ replicate 199 (CHR ''a'') @ newline" "''  ''"
      "replicate 199 (CHR ''a'')" newline]
  by (simp add: isspace_def newline_def)

subsection \<open>Clipping\<close>

text \<open>
  Claim C4. Clipping returns an input of at most 60,000 characters unchanged, so
  clipping twice is clipping once; of a longer input it returns the first 60,000
  characters: a prefix of the input, of length 60,000, with a non-empty rest cut off.
  The clipped text is the user message of the request.
\<close>

theorem clip_prefix:
  "(length text \<le> 60000 \<longrightarrow> clip text = text) \<and>
   clip (clip text) = clip text \<and>
   (60000 < length text \<longrightarrow>
      clip text = take 60000 text \<and> length (clip text) = 60000 \<and>
      (\<exists>rest. rest \<noteq> [] \<and> text = clip text @ rest)) \<and>
   map content (messages (analysis_request text)) = [SystemPrompt, Text (clip text)]"
proof -
  have "60000 < length text \<Longrightarrow> \<exists>rest. rest \<noteq> [] \<and> text = clip text @ rest"
    by (rule exI [of _ "drop 60000 text"]) (simp add: clip_def)
  then show ?thesis
    by (simp add: clip_def analysis_request_def)
qed

theorem clip_prefix_witness:
  "length (clip (replicate 60001 (CHR ''a''))) = 60000 \<and> clip ''abc'' = ''abc''"
  using clip_prefix [of "replicate 60001 (CHR ''a'')"] clip_prefix [of "''abc''"]
  by simp

subsection \<open>Text of a PDF\<close>

lemma pages_loop_all: "pages_loop (map Inr texts) acc = Inr (acc @ map or_empty texts)"
  by (induction texts arbitrary: acc) auto

lemma join_butlast:
  "join sep xs = (if xs = [] then [] else concat (map (\<lambda>x. x @ sep) (butlast xs)) @ last xs)"
  by (induction sep xs rule: join.induct) auto

text \<open>
  Claim C6. For a PDF whose pages all extract (a page without text gives \<^verbatim>\<open>None\<close>),
  the extracted text is the texts of the pages in page order with one newline between
  two consecutive pages, a page without text counting as the empty string: every page
  but the last is followed by one newline. Three pages with text on the first and the
  third only give the first text, two newlines, the third text.
\<close>

theorem extract_text_from_pdf_joins_pages:
  assumes "pdf_open E path = Inr (map Inr texts)"
  shows "extract_text_from_pdf E path = Inr (join newline (map or_empty texts)) \<and>
         (texts \<noteq> [] \<longrightarrow>
            extract_text_from_pdf E path =
              Inr (concat (map (\<lambda>t. or_empty t @ [CHR 0x0A]) (butlast texts)) @ or_empty (last texts))) \<and>
         or_empty None = [] \<and>
         (texts = [Some page1, None, Some page3] \<longrightarrow>
            extract_text_from_pdf E path = Inr (page1 @ [CHR 0x0A, CHR 0x0A] @ page3))"
proof -
  have 1: "extract_text_from_pdf E path = Inr (join newline (map or_empty texts))"
    using assms by (simp add: extract_text_from_pdf_def pages_loop_all)
  have 2: "texts \<noteq> [] \<Longrightarrow> join newline (map or_empty texts) =
             concat (map (\<lambda>t. or_empty t @ [CHR 0x0A]) (butlast texts)) @ or_empty (last texts)"
    by (simp add: join_butlast map_butlast [symmetric] last_map comp_def newline_def)
  have 3: "texts = [Some page1, None, Some page3] \<Longrightarrow>
             join newline (map or_empty texts) = page1 @ [CHR 0x0A, CHR 0x0A] @ page3"
    by (simp add: or_empty_def newline_def)
  show ?thesis using 1 2 3 by (simp add: or_empty_def)
qed

theorem extract_text_from_pdf_joins_pages_witness:
  "extract_text_from_pdf demo_env ''contract.pdf'' =
     Inr (replicate 150 (CHR ''a'') @ [CHR 0x0A, CHR 0x0A] @ replicate 150 (CHR ''b''))"
proof -
  have pages: "pdf_open demo_env ''contract.pdf'' =
      Inr (map Inr [Some (replicate 150 (CHR ''a'')), None, Some (replicate 150 (CHR ''b''))])"
    by (simp add: demo_env_def)
  from extract_text_from_pdf_joins_pages [OF pages,
      of "replicate 150 (CHR ''a'')" "replicate 150 (CHR ''b'')"]
  show ?thesis by (simp add: or_empty_def newline_def)
qed

subsection \<open>The stages of the handler\<close>

lemma replies_append: "replies (xs @ ys) = replies xs @ replies ys"
  by (induction xs rule: replies.induct) auto

lemma completions_append: "completions (xs @ ys) = completions xs @ completions ys"
  by (induction xs rule: completions.induct) auto

lemma extract_stage_cases:
  "extract_stage E d p = ([ExtractPdf p], map_sum id Some (extract_text_from_pdf E p)) \<and> kind_of d = Pdf \<or>
   extract_stage E d p = ([ExtractDocx p], map_sum id Some (extract_text_from_docx E p)) \<and> kind_of d = Docx \<or>
   extract_stage E d p = ([ExtractImage p], map_sum id Some (extract_text_from_image E p)) \<and> kind_of d = Image \<or>
   extract_stage E d p = ([Reply UnsupportedFormat], Inr None) \<and> kind_of d = Unsupported"
  by (cases "kind_of d") (simp_all add: extract_stage_def)

lemma map_sum_Some_not_None: "map_sum id Some x \<noteq> Inr None"
  by (cases x) auto

lemma not_None_map_sum_Some: "Inr None \<noteq> map_sum id Some x"
  by (cases x) auto

lemma service_requests_append:
  "service_requests (xs @ ys) = service_requests xs @ service_requests ys"
  by (induction xs rule: service_requests.induct) auto

lemma replies_sent: "replies (replicate n (ServiceRequest q)) = []"
  by (induction n) auto

lemma completions_sent: "completions (replicate n (ServiceRequest q)) = []"
  by (induction n) auto

lemma service_requests_sent: "service_requests (replicate n (ServiceRequest q)) = replicate n q"
  by (induction n) auto

lemma send_requests_bounds:
  "1 \<le> fst (send_requests att n k) \<and> fst (send_requests att n k) \<le> Suc n"
proof (induction n arbitrary: k)
  case 0
  show ?case by (simp split: attempt_result.splits)
next
  case (Suc n)
  show ?case
    using Suc [of "Suc k"] by (auto split: attempt_result.splits prod.splits)
qed

lemma send_requests_no_retry:
  "n = 0 \<or> (\<forall>e. att k \<noteq> Retryable e) \<Longrightarrow> fst (send_requests att n k) = 1"
  by (cases n) (auto split: attempt_result.splits prod.splits)

lemma send_requests_exhausted:
  "\<forall>j. att j = Retryable e \<Longrightarrow> send_requests att n k = (Suc n, Inl e)"
  by (induction n arbitrary: k) auto

lemma requests_sent_bounds:
  "requests_sent E q \<le> Suc (client_retries E) \<and>
   (client_new E \<noteq> None \<longrightarrow> requests_sent E q = 0) \<and>
   (client_new E = None \<longrightarrow> 1 \<le> requests_sent E q) \<and>
   (client_new E = None \<and> (client_retries E = 0 \<or> (\<forall>e. attempt E q 0 \<noteq> Retryable e))
      \<longrightarrow> requests_sent E q = 1)"
  using send_requests_bounds [of "attempt E q" "client_retries E" 0]
    send_requests_no_retry [of "client_retries E" "attempt E q" 0]
  by (cases "client_new E") (auto simp: requests_sent_def client_call_def)

lemma extract_stage_text:
  assumes "extract_stage E d p = (evs, Inr (Some text))"
  shows "replies evs = [] \<and> completions evs = [] \<and> extractions evs = evs \<and> length evs = 1 \<and>
         kind_of d \<noteq> Unsupported \<and> service_requests evs = []"
  using assms extract_stage_cases [of E d p] by (auto simp: extractions_def)

lemma extract_stage_error:
  assumes "extract_stage E d p = (evs, Inl e)"
  shows "replies evs = [] \<and> completions evs = [] \<and> kind_of d \<noteq> Unsupported"
  using assms extract_stage_cases [of E d p] by auto

lemma extract_stage_unsupported:
  "extract_stage E d p = (evs, Inr None) \<longleftrightarrow> kind_of d = Unsupported \<and> evs = [Reply UnsupportedFormat]"
  using extract_stage_cases [of E d p] by (auto simp: map_sum_Some_not_None not_None_map_sum_Some)

lemma analysis_stage_sparse:
  "length (strip text) < 200 \<Longrightarrow> analysis_stage E text = [Reply ContentTooSparse]"
  by (simp add: analysis_stage_def validate_def)

lemma analysis_stage_valid:
  "200 \<le> length (strip text) \<Longrightarrow>
   analysis_stage E text =
     ChatCompletion (analysis_request text) #
     replicate (requests_sent E (analysis_request text)) (ServiceRequest (analysis_request text)) @
     [Reply (case snd (analyze_document_text E text) of
               Inl e \<Rightarrow> AnalysisFailed
             | Inr analysis_result \<Rightarrow> AnalysisResult analysis_result)]"
  by (simp add: analysis_stage_def validate_def analyze_document_text_def split: sum.splits)

lemma handle_document_text:
  assumes "select_file m = Inr (file_id, filename)"
    and "download E file_id filename = None"
    and "extract_stage E (guess_document_type filename) filename = (evs, Inr (Some text))"
  shows "handle_document E m =
           ([Reply Ack, Download file_id filename] @ evs @ analysis_stage E text, None)"
  using assms by (simp add: handle_document_def)

lemma analysis_stage_replies:
  "\<exists>r. replies (analysis_stage E text) = [r] \<and>
       (r = ContentTooSparse \<or> r = AnalysisFailed \<or> (\<exists>s. r = AnalysisResult s))"
proof (cases "length (strip text) < 200")
  case True
  then show ?thesis by (simp add: analysis_stage_sparse)
next
  case False
  then have "200 \<le> length (strip text)" by simp
  from analysis_stage_valid [OF this, of E] show ?thesis
    by (cases "snd (analyze_document_text E text)") (auto simp: replies_append replies_sent)
qed


subsection \<open>Replies of one invocation\<close>

text \<open>
  Claim C2, as the program has it. Every invocation sends the acknowledgment first.
  When an exception leaves the handler (no photo size to select, or the download
  raised) the acknowledgment is the only reply. Otherwise, which is exactly when a
  file was selected and its download returned, the invocation sends two replies: the
  acknowledgment and then one of the four failure messages or the analysis result.
\<close>

theorem handle_document_replies:
  "(snd (handle_document E m) \<noteq> None \<longrightarrow> replies (fst (handle_document E m)) = [Ack]) \<and>
   (snd (handle_document E m) = None \<longrightarrow>
      (\<exists>r. replies (fst (handle_document E m)) = [Ack, r] \<and>
           (r = UnsupportedFormat \<or> r = ExtractionFailed \<or> r = ContentTooSparse \<or>
            r = AnalysisFailed \<or> (\<exists>s. r = AnalysisResult s)))) \<and>
   (snd (handle_document E m) = None \<longleftrightarrow>
      (\<exists>file_id filename. select_file m = Inr (file_id, filename) \<and>
         download E file_id filename = None))"
proof (cases "select_file m")
  case (Inl e)
  then show ?thesis by (simp add: handle_document_def)
next
  case (Inr p)
  obtain file_id filename where p: "p = (file_id, filename)" by (cases p)
  note sel = Inr [unfolded p]
  show ?thesis
  proof (cases "download E file_id filename")
    case (Some e)
    then show ?thesis using sel by (simp add: handle_document_def)
  next
    case None
    obtain evs res where ext:
      "extract_stage E (guess_document_type filename) filename = (evs, res)"
      by (cases "extract_stage E (guess_document_type filename) filename")
    let ?d = "guess_document_type filename"
    show ?thesis
    proof (cases res)
      case (Inl e)
      have x: "extract_stage E ?d filename = (evs, Inl e)"
        using ext Inl by simp
      have h: "handle_document E m =
          ([Reply Ack, Download file_id filename] @ evs @ [Reply ExtractionFailed], None)"
        using sel None x by (simp add: handle_document_def)
      show ?thesis
        using sel None extract_stage_error [OF x]
        by (simp add: h replies_append)
    next
      case (Inr t)
      show ?thesis
      proof (cases "t = None")
        case True
        have x: "extract_stage E ?d filename = (evs, Inr None)"
          using ext Inr True by simp
        have h: "handle_document E m = ([Reply Ack, Download file_id filename] @ evs, None)"
          using sel None x by (simp add: handle_document_def)
        have "evs = [Reply UnsupportedFormat]"
          using x by (simp add: extract_stage_unsupported)
        then show ?thesis
          using sel None by (simp add: h)
      next
        case False
        then obtain body where "t = Some body" by auto
        then have x: "extract_stage E ?d filename = (evs, Inr (Some body))"
          using ext Inr by simp
        obtain r where r: "replies (analysis_stage E body) = [r]"
          "r = ContentTooSparse \<or> r = AnalysisFailed \<or> (\<exists>s. r = AnalysisResult s)"
          using analysis_stage_replies [of E body] by blast
        have "replies (fst (handle_document E m)) = [Ack, r]"
          using handle_document_text [OF sel None x] extract_stage_text [OF x] r(1)
          by (simp add: replies_append)
        moreover have "snd (handle_document E m) = None"
          using handle_document_text [OF sel None x] by simp
        ultimately show ?thesis
          using sel None r(2) by auto
      qed
    qed
  qed
qed

theorem handle_document_replies_witness:
  "replies (fst (handle_document demo_env (DocumentMsg ''f1'' (Some ''contract.xlsx'')))) =
     [Ack, UnsupportedFormat]"
proof -
  have "snd (handle_document demo_env (DocumentMsg ''f1'' (Some ''contract.xlsx''))) = None"
    using handle_document_replies [of demo_env "DocumentMsg ''f1'' (Some ''contract.xlsx'')"]
    by (simp add: select_file_def demo_env_def)
  with handle_document_replies [of demo_env "DocumentMsg ''f1'' (Some ''contract.xlsx'')"]
  show ?thesis
    by (simp add: handle_document_def select_file_def demo_env_def guess_document_type_def
      lower_def lower_char_def extract_stage_def kind_of_def)
qed

text \<open>As the claim words it, an invocation sends exactly one reply. A photo that is
  analysed gets two: the acknowledgment and the result.\<close>

theorem single_reply_counterexample:
  "replies (fst (handle_document demo_env (PhotoMsg [''small'', ''big'']))) =
     [Ack, AnalysisResult ''risk report''] \<and>
   length (replies (fst (handle_document demo_env (PhotoMsg [''small'', ''big''])))) \<noteq> 1"
proof -
  let ?q = "analysis_request (replicate 250 (CHR ''y''))"
  have sel: "select_file (PhotoMsg [''small'', ''big'']) = Inr (''big'', ''photo_big.jpg'')"
    by (simp add: select_file_def)
  have dl: "download demo_env ''big'' ''photo_big.jpg'' = None"
    by (simp add: demo_env_def)
  have ty: "guess_document_type ''photo_big.jpg'' = ''jpg''"
    by (simp add: guess_document_type_def lower_def lower_char_def)
  have ext: "extract_stage demo_env (guess_document_type ''photo_big.jpg'') ''photo_big.jpg'' =
      ([ExtractImage ''photo_big.jpg''], Inr (Some (replicate 250 (CHR ''y''))))"
    by (simp add: ty extract_stage_def kind_of_def extract_text_from_image_def demo_env_def)
  have long: "200 \<le> length (strip (replicate 250 (CHR ''y'')))"
    by (simp add: strip_def isspace_def)
  have call: "client_call demo_env ?q = (1, Inr [Some '' risk report ''])"
    by (simp add: client_call_def demo_env_def numeral_2_eq_2)
  have st: "strip '' risk report '' = ''risk report''"
    by (simp add: strip_def isspace_def)
  have "handle_document demo_env (PhotoMsg [''small'', ''big'']) =
     ([Reply Ack, Download ''big'' ''photo_big.jpg'', ExtractImage ''photo_big.jpg'',
       ChatCompletion ?q, ServiceRequest ?q, Reply (AnalysisResult ''risk report'')], None)"
    using handle_document_text [OF sel dl ext] analysis_stage_valid [OF long, of demo_env]
    by (simp add: analyze_document_text_def chat_create_def requests_sent_def call st)
  then show ?thesis by simp
qed


subsection \<open>The analysis call\<close>

text \<open>
  Claim C5. \<^verbatim>\<open>analyze_document_text\<close> makes one call into the library, with the fixed
  model, the fixed system prompt and a user message that is the first 60,000 characters
  of its text (the whole text when it is shorter); every request the client sends to
  the service during the call is that request; when the response has a first choice
  with a content, it returns that content stripped. In the handler: when a file was
  selected, its download returned, an extractor returned a text and the text passed the
  length test, the only analysis call is the one for the extracted text, and with such
  a response the reply after the acknowledgment is the stripped content.
\<close>

theorem analysis_request_and_result:
  "fst (analyze_document_text E text) =
     ChatCompletion (analysis_request text) #
     replicate (requests_sent E (analysis_request text)) (ServiceRequest (analysis_request text)) \<and>
   completions (fst (analyze_document_text E text)) = [analysis_request text] \<and>
   model (analysis_request text) = ''gpt-4o-mini'' \<and>
   messages (analysis_request text) =
     [\<lparr> role = ''system'', content = SystemPrompt \<rparr>,
      \<lparr> role = ''user'', content = Text (take 60000 text) \<rparr>] \<and>
   length (take 60000 text) \<le> 60000 \<and>
   (chat_create E (analysis_request text) = Inr (Some c # rest) \<longrightarrow>
      snd (analyze_document_text E text) = Inr (strip c)) \<and>
   (select_file m = Inr (file_id, filename) \<and> download E file_id filename = None \<and>
    extract_stage E (guess_document_type filename) filename = (evs, Inr (Some extracted)) \<and>
    200 \<le> length (strip extracted) \<longrightarrow>
      completions (fst (handle_document E m)) = [analysis_request extracted] \<and>
      service_requests (fst (handle_document E m)) =
        replicate (requests_sent E (analysis_request extracted)) (analysis_request extracted) \<and>
      (chat_create E (analysis_request extracted) = Inr (Some c # rest) \<longrightarrow>
         replies (fst (handle_document E m)) = [Ack, AnalysisResult (strip c)]))"
proof -
  have a1: "fst (analyze_document_text E text) =
     ChatCompletion (analysis_request text) #
     replicate (requests_sent E (analysis_request text)) (ServiceRequest (analysis_request text))"
    by (simp add: analyze_document_text_def)
  have a2: "model (analysis_request text) = ''gpt-4o-mini''"
    by (simp add: analysis_request_def MODEL_def)
  have a3: "messages (analysis_request text) =
     [\<lparr> role = ''system'', content = SystemPrompt \<rparr>,
      \<lparr> role = ''user'', content = Text (take 60000 text) \<rparr>]"
    by (simp add: analysis_request_def clip_def)
  have a4: "chat_create E (analysis_request t) = Inr (Some c # rest) \<longrightarrow>
      snd (analyze_document_text E t) = Inr (strip c)" for t
    by (simp add: analyze_document_text_def)
  have a5: "completions (fst (handle_document E m)) = [analysis_request extracted] \<and>
      service_requests (fst (handle_document E m)) =
        replicate (requests_sent E (analysis_request extracted)) (analysis_request extracted) \<and>
      (chat_create E (analysis_request extracted) = Inr (Some c # rest) \<longrightarrow>
         replies (fst (handle_document E m)) = [Ack, AnalysisResult (strip c)])"
    if sel: "select_file m = Inr (file_id, filename)"
      and dl: "download E file_id filename = None"
      and ext: "extract_stage E (guess_document_type filename) filename = (evs, Inr (Some extracted))"
      and long: "200 \<le> length (strip extracted)"
    using handle_document_text [OF sel dl ext] extract_stage_text [OF ext]
      analysis_stage_valid [OF long, of E] a4 [of extracted]
    by (simp add: replies_append completions_append service_requests_append
        replies_sent completions_sent service_requests_sent)
  have a6: "completions (fst (analyze_document_text E text)) = [analysis_request text]"
    by (simp add: a1 completions_sent)
  show ?thesis
    using a1 a2 a3 a4 [of "text"] a5 a6 by (simp only: simp_thms) simp
qed

theorem analysis_request_and_result_witness:
  "handle_document demo_env (PhotoMsg [''small'', ''big'']) =
     ([Reply Ack, Download ''big'' ''photo_big.jpg'', ExtractImage ''photo_big.jpg'',
       ChatCompletion (analysis_request (replicate 250 (CHR ''y''))),
       ServiceRequest (analysis_request (replicate 250 (CHR ''y''))),
       Reply (AnalysisResult ''risk report'')], None) \<and>
   replies (fst (handle_document demo_env (PhotoMsg [''small'', ''big'']))) =
     [Ack, AnalysisResult ''risk report'']"
proof -
  have sel: "select_file (PhotoMsg [''small'', ''big'']) = Inr (''big'', ''photo_big.jpg'')"
    by (simp add: select_file_def)
  have dl: "download demo_env ''big'' ''photo_big.jpg'' = None"
    by (simp add: demo_env_def)
  have ty: "guess_document_type ''photo_big.jpg'' = ''jpg''"
    by (simp add: guess_document_type_def lower_def lower_char_def)
  have ext: "extract_stage demo_env (guess_document_type ''photo_big.jpg'') ''photo_big.jpg'' =
      ([ExtractImage ''photo_big.jpg''], Inr (Some (replicate 250 (CHR ''y''))))"
    by (simp add: ty extract_stage_def kind_of_def extract_text_from_image_def demo_env_def)
  have long: "200 \<le> length (strip (replicate 250 (CHR ''y'')))"
    by (simp add: strip_def isspace_def)
  have call: "client_call demo_env (analysis_request (replicate 250 (CHR ''y''))) =
      (1, Inr [Some '' risk report ''])"
    by (simp add: client_call_def demo_env_def numeral_2_eq_2)
  have resp: "chat_create demo_env (analysis_request (replicate 250 (CHR ''y''))) =
      Inr (Some '' risk report '' # [])"
    by (simp add: chat_create_def call)
  have sent: "requests_sent demo_env (analysis_request (replicate 250 (CHR ''y''))) = 1"
    by (simp add: requests_sent_def call)
  have st: "strip '' risk report '' = ''risk report''"
    by (simp add: strip_def isspace_def)
  have hd: "handle_document demo_env (PhotoMsg [''small'', ''big'']) =
     ([Reply Ack, Download ''big'' ''photo_big.jpg'', ExtractImage ''photo_big.jpg'',
       ChatCompletion (analysis_request (replicate 250 (CHR ''y''))),
       ServiceRequest (analysis_request (replicate 250 (CHR ''y''))),
       Reply (AnalysisResult ''risk report'')], None)"
    using handle_document_text [OF sel dl ext] analysis_stage_valid [OF long, of demo_env]
    by (simp add: analyze_document_text_def resp sent st)
  from analysis_request_and_result [of demo_env "replicate 250 (CHR ''y'')" "'' risk report ''" "[]"
      "PhotoMsg [''small'', ''big'']" "''big''" "''photo_big.jpg''" "[ExtractImage ''photo_big.jpg'']"
      "replicate 250 (CHR ''y'')"] sel dl ext long resp st hd
  show ?thesis by simp
qed

subsection \<open>Failures of the pipeline\<close>

text \<open>
  Claim C7. When the extractor of an invocation returned a text whose stripped length
  is below 200, the handler replies with the ContentTooSparse message after the
  acknowledgment and returns; the analysis service is not called: the trace holds no
  call into the library and no request to the service.
\<close>

theorem sparse_text_halts_before_analysis:
  assumes sel: "select_file m = Inr (file_id, filename)"
    and dl: "download E file_id filename = None"
    and ext: "extract_stage E (guess_document_type filename) filename = (evs, Inr (Some text))"
    and short: "length (strip text) < 200"
  shows "handle_document E m =
           ([Reply Ack, Download file_id filename] @ evs @ [Reply ContentTooSparse], None) \<and>
         replies (fst (handle_document E m)) = [Ack, ContentTooSparse] \<and>
         completions (fst (handle_document E m)) = [] \<and>
         service_requests (fst (handle_document E m)) = []"
  using handle_document_text [OF sel dl ext] extract_stage_text [OF ext]
    analysis_stage_sparse [OF short, of E]
  by (simp add: replies_append completions_append service_requests_append)

theorem sparse_text_halts_before_analysis_witness:
  "handle_document demo_env (DocumentMsg ''f1'' (Some ''note.docx'')) =
     ([Reply Ack, Download ''f1'' ''note.docx'', ExtractDocx ''note.docx'', Reply ContentTooSparse], None)"
proof -
  have sel: "select_file (DocumentMsg ''f1'' (Some ''note.docx'')) = Inr (''f1'', ''note.docx'')"
    by (simp add: select_file_def)
  have dl: "download demo_env ''f1'' ''note.docx'' = None"
    by (simp add: demo_env_def)
  have ty: "guess_document_type ''note.docx'' = ''docx''"
    by (simp add: guess_document_type_def lower_def lower_char_def)
  have ext: "extract_stage demo_env (guess_document_type ''note.docx'') ''note.docx'' =
      ([ExtractDocx ''note.docx''], Inr (Some (replicate 50 (CHR ''x''))))"
    by (simp add: ty extract_stage_def kind_of_def extract_text_from_docx_def demo_env_def)
  have short: "length (strip (replicate 50 (CHR ''x''))) < 200"
    by (simp add: strip_def isspace_def)
  from sparse_text_halts_before_analysis [OF sel dl ext short] show ?thesis by simp
qed





text \<open>
  Claim C9, as the program has it. When the invocation reached the analysis call and
  the call raised, or returned no choice, or returned a first choice without content,
  the handler replies with the AnalysisFailed message after the acknowledgment and
  returns, and it has called the library once: the handler repeats nothing. The
  requests that reach the service are those the client sends during that one call.
  The client is built with its default options (line 77), so it resends a failed
  request on its own: at most one request more than its retry budget is sent; none
  when building the client raises; exactly one when the client is built and has no
  retry left to spend or the first request does not fail in a way it retries.
\<close>

theorem analysis_failure_requests_bounded:
  assumes sel: "select_file m = Inr (file_id, filename)"
    and dl: "download E file_id filename = None"
    and ext: "extract_stage E (guess_document_type filename) filename = (evs, Inr (Some text))"
    and long: "200 \<le> length (strip text)"
    and fail: "chat_create E (analysis_request text) = Inl e \<or>
               chat_create E (analysis_request text) = Inr [] \<or>
               chat_create E (analysis_request text) = Inr (None # rest)"
  shows "handle_document E m =
           ([Reply Ack, Download file_id filename] @ evs @
            ChatCompletion (analysis_request text) #
            replicate (requests_sent E (analysis_request text))
              (ServiceRequest (analysis_request text)) @
            [Reply AnalysisFailed], None) \<and>
         replies (fst (handle_document E m)) = [Ack, AnalysisFailed] \<and>
         completions (fst (handle_document E m)) = [analysis_request text] \<and>
         length (service_requests (fst (handle_document E m))) =
           requests_sent E (analysis_request text) \<and>
         requests_sent E (analysis_request text) \<le> 1 + client_retries E \<and>
         (client_new E \<noteq> None \<longrightarrow> requests_sent E (analysis_request text) = 0) \<and>
         (client_new E = None \<and>
          (client_retries E = 0 \<or> (\<forall>x. attempt E (analysis_request text) 0 \<noteq> Retryable x))
            \<longrightarrow> requests_sent E (analysis_request text) = 1)"
proof -
  have "\<exists>x. snd (analyze_document_text E text) = Inl x"
    using fail by (auto simp: analyze_document_text_def)
  then have stage: "analysis_stage E text =
      ChatCompletion (analysis_request text) #
      replicate (requests_sent E (analysis_request text)) (ServiceRequest (analysis_request text)) @
      [Reply AnalysisFailed]"
    using analysis_stage_valid [OF long, of E] by auto
  have run: "handle_document E m =
           ([Reply Ack, Download file_id filename] @ evs @
            ChatCompletion (analysis_request text) #
            replicate (requests_sent E (analysis_request text))
              (ServiceRequest (analysis_request text)) @
            [Reply AnalysisFailed], None)"
    using handle_document_text [OF sel dl ext] stage by simp
  have tr: "replies (fst (handle_document E m)) = [Ack, AnalysisFailed] \<and>
         completions (fst (handle_document E m)) = [analysis_request text] \<and>
         length (service_requests (fst (handle_document E m))) =
           requests_sent E (analysis_request text)"
    using extract_stage_text [OF ext]
    by (simp add: run replies_append completions_append service_requests_append
        replies_sent completions_sent service_requests_sent)
  show ?thesis
    using run tr requests_sent_bounds [of E "analysis_request text"] by simp
qed

theorem analysis_failure_requests_bounded_witness:
  "handle_document rejecting_llm_env (PhotoMsg [''small'', ''big'']) =
     ([Reply Ack, Download ''big'' ''photo_big.jpg'', ExtractImage ''photo_big.jpg'',
       ChatCompletion (analysis_request (replicate 250 (CHR ''y''))),
       ServiceRequest (analysis_request (replicate 250 (CHR ''y''))),
       Reply AnalysisFailed], None)"
proof -
  let ?q = "analysis_request (replicate 250 (CHR ''y''))"
  have sel: "select_file (PhotoMsg [''small'', ''big'']) = Inr (''big'', ''photo_big.jpg'')"
    by (simp add: select_file_def)
  have dl: "download rejecting_llm_env ''big'' ''photo_big.jpg'' = None"
    by (simp add: rejecting_llm_env_def demo_env_def)
  have ty: "guess_document_type ''photo_big.jpg'' = ''jpg''"
    by (simp add: guess_document_type_def lower_def lower_char_def)
  have ext: "extract_stage rejecting_llm_env (guess_document_type ''photo_big.jpg'') ''photo_big.jpg'' =
      ([ExtractImage ''photo_big.jpg''], Inr (Some (replicate 250 (CHR ''y''))))"
    by (simp add: ty extract_stage_def kind_of_def extract_text_from_image_def
        rejecting_llm_env_def demo_env_def)
  have long: "200 \<le> length (strip (replicate 250 (CHR ''y'')))"
    by (simp add: strip_def isspace_def)
  have call: "client_call rejecting_llm_env ?q = (1, Inl (Raised ''AuthenticationError''))"
    by (simp add: client_call_def rejecting_llm_env_def demo_env_def numeral_2_eq_2)
  have fail: "chat_create rejecting_llm_env ?q = Inl (Raised ''AuthenticationError'') \<or>
      chat_create rejecting_llm_env ?q = Inr [] \<or>
      chat_create rejecting_llm_env ?q = Inr (None # [])"
    by (simp add: chat_create_def call)
  have sent: "requests_sent rejecting_llm_env ?q = 1"
    by (simp add: requests_sent_def call)
  from analysis_failure_requests_bounded [OF sel dl ext long fail] sent
  show ?thesis by simp
qed

text \<open>As the claim words it, exactly one call reaches the remote service and nothing is
  retried. When every request times out, the client with its two retries sends the
  request three times before the handler reports the failure.\<close>

theorem single_outbound_call_counterexample:
  "replies (fst (handle_document failing_llm_env (PhotoMsg [''small'', ''big'']))) =
     [Ack, AnalysisFailed] \<and>
   length (service_requests (fst (handle_document failing_llm_env (PhotoMsg [''small'', ''big''])))) = 3"
proof -
  let ?q = "analysis_request (replicate 250 (CHR ''y''))"
  have sel: "select_file (PhotoMsg [''small'', ''big'']) = Inr (''big'', ''photo_big.jpg'')"
    by (simp add: select_file_def)
  have dl: "download failing_llm_env ''big'' ''photo_big.jpg'' = None"
    by (simp add: failing_llm_env_def demo_env_def)
  have ty: "guess_document_type ''photo_big.jpg'' = ''jpg''"
    by (simp add: guess_document_type_def lower_def lower_char_def)
  have ext: "extract_stage failing_llm_env (guess_document_type ''photo_big.jpg'') ''photo_big.jpg'' =
      ([ExtractImage ''photo_big.jpg''], Inr (Some (replicate 250 (CHR ''y''))))"
    by (simp add: ty extract_stage_def kind_of_def extract_text_from_image_def
        failing_llm_env_def demo_env_def)
  have long: "200 \<le> length (strip (replicate 250 (CHR ''y'')))"
    by (simp add: strip_def isspace_def)
  have call: "client_call failing_llm_env ?q = (3, Inl (Raised ''APITimeoutError''))"
    by (simp add: client_call_def failing_llm_env_def demo_env_def numeral_2_eq_2)
  have three: "replicate 3 (ServiceRequest ?q) = [ServiceRequest ?q, ServiceRequest ?q, ServiceRequest ?q]"
    by (simp add: numeral_3_eq_3)
  have "handle_document failing_llm_env (PhotoMsg [''small'', ''big'']) =
     ([Reply Ack, Download ''big'' ''photo_big.jpg'', ExtractImage ''photo_big.jpg'',
       ChatCompletion ?q, ServiceRequest ?q, ServiceRequest ?q, ServiceRequest ?q,
       Reply AnalysisFailed], None)"
    using handle_document_text [OF sel dl ext] analysis_stage_valid [OF long, of failing_llm_env]
    by (simp add: analyze_document_text_def chat_create_def requests_sent_def call three)
  then show ?thesis by simp
qed



end
